theory Spec2Isabelle
  imports Main "HOL-Library.Multiset"
begin

section \<open>Blog documents\<close>

text \<open>
  A document of \<open>allBlogs\<close> as \<open>src/app/page.tsx\<close> reads it: \<open>blog.slug\<close> keys the
  list item and names the link, \<open>blog.publishedAt\<close> is what the comparator looks at.
  The front matter of the content files gives \<open>title\<close>, \<open>summary\<close> and
  \<open>publishedAt\<close>.

  \<open>publishedAt\<close> is a date field: the content layer checks it when the site is built
  and hands it on as an ISO date-time string, so \<open>new Date(blog.publishedAt)\<close> is
  always a valid date. The record keeps the time value of that date (milliseconds since
  1970-01-01T00:00:00Z, an integer): \<open>>\<close> on two \<open>Date\<close> objects compares their time
  values, so \<open>new Date(a.publishedAt) > new Date(b.publishedAt)\<close> is
  \<open>publishedAt a > publishedAt b\<close> on the record.
\<close>

record blog =
  slug :: string
  title :: string
  summary :: string
  publishedAt :: int

section \<open>The comparator of \<open>Home\<close>\<close>

text \<open>
  \<^verbatim>\<open>
  (a, b) => {
    if (new Date(a.publishedAt) > new Date(b.publishedAt)) {
      return -1;
    }
    return 1;
  }
  \<close>
  It never returns 0: for two documents of the same date it answers 1 whichever way
  round they are passed.
\<close>

definition comparefn :: "blog \<Rightarrow> blog \<Rightarrow> int" where
  "comparefn a b =
     (if publishedAt a > publishedAt b then - 1 else 1)"

section \<open>\<open>Array.prototype.slice\<close> and \<open>Array.prototype.sort\<close>\<close>

text \<open>
  \<open>slice(start, end)\<close> as ECMAScript defines it on the elements of an array: a negative
  index counts from the end, both indices are clamped to the length, and an empty range
  gives the empty array. It builds a new array.
\<close>

definition Array_slice :: "'a list \<Rightarrow> int \<Rightarrow> int \<Rightarrow> 'a list" where
  "Array_slice xs start fin =
     (let len = int (length xs);
          k = (if start < 0 then max (len + start) 0 else min start len);
          final = (if fin < 0 then max (len + fin) 0 else min fin len)
      in take (nat (final - k)) (drop (nat k) xs))"

text \<open>
  \<open>sort(comparefn)\<close> sorts by a sequence of calls of \<open>comparefn\<close> that the language
  leaves to the engine, and the language fixes the resulting order (a stable one) only
  for a consistent comparator. On an array of two elements \<open>[x0, x1]\<close> an engine makes
  one call, and the engines differ in which way round they ask:
  \<^item> \<open>CompareLaterWithEarlier\<close>: the later element moves in front of the earlier one
    exactly when \<open>comparefn(x1, x0) < 0\<close> (the run detection of V8, which Node.js and
    Chrome use, and the merge step of JavaScriptCore);
  \<^item> \<open>CompareEarlierWithLater\<close>: the later element stays behind the earlier one exactly
    when \<open>comparefn(x0, x1) <= 0\<close>, and moves in front of it otherwise (the insertion
    sort SpiderMonkey uses on short arrays).
  Arrays of no or one element are returned as they are. \<open>Home\<close> sorts a slice of at most
  two elements, so nothing else of an engine is reached; on longer arrays the model goes
  on with the same test as a linear insertion. \<open>insert_item\<close> walks the sorted prefix
  from its right end, so the prefix is held reversed.
\<close>

datatype engine = CompareLaterWithEarlier | CompareEarlierWithLater

definition stays_behind :: "engine \<Rightarrow> ('a \<Rightarrow> 'a \<Rightarrow> int) \<Rightarrow> 'a \<Rightarrow> 'a \<Rightarrow> bool" where
  "stays_behind eng cmp earlier item =
     (case eng of
        CompareLaterWithEarlier \<Rightarrow> \<not> cmp item earlier < 0
      | CompareEarlierWithLater \<Rightarrow> cmp earlier item \<le> 0)"

fun insert_item :: "engine \<Rightarrow> ('a \<Rightarrow> 'a \<Rightarrow> int) \<Rightarrow> 'a \<Rightarrow> 'a list \<Rightarrow> 'a list" where
  "insert_item eng cmp item [] = [item]"
| "insert_item eng cmp item (y # ys) =
     (if stays_behind eng cmp y item then item # y # ys
      else y # insert_item eng cmp item ys)"

definition Array_sort :: "engine \<Rightarrow> ('a \<Rightarrow> 'a \<Rightarrow> int) \<Rightarrow> 'a list \<Rightarrow> 'a list" where
  "Array_sort eng cmp xs = rev (foldl (\<lambda>acc x. insert_item eng cmp x acc) [] xs)"

section \<open>The list of \<open>Home\<close>\<close>

text \<open>
  \<^verbatim>\<open>const blogs = allBlogs.slice(0, 2).sort((a, b) => ...);\<close>
  on the elements of the arrays: the slice is taken first, the sort works on the slice.
\<close>

definition blogs :: "engine \<Rightarrow> blog list \<Rightarrow> blog list" where
  "blogs eng allBlogs = Array_sort eng comparefn (Array_slice allBlogs 0 2)"

section \<open>Arrays as objects\<close>

text \<open>
  \<open>sort\<close> sorts the array it is called on in place and returns that same array;
  \<open>slice\<close> returns a new array. Whether \<open>Home\<close> changes \<open>allBlogs\<close> depends on
  which array the sort is called on, so the arrays live in a heap: an address is the
  index of an array in the heap, a new array goes to the end, and an address that names
  no array gives \<open>None\<close> (the program has no such reference).
\<close>

type_synonym addr = nat

type_synonym heap = "blog list list"

definition deref :: "heap \<Rightarrow> addr \<Rightarrow> blog list option" where
  "deref h a = (if a < length h then Some (h ! a) else None)"

definition alloc :: "heap \<Rightarrow> blog list \<Rightarrow> heap \<times> addr" where
  "alloc h xs = (h @ [xs], length h)"

definition heap_slice :: "heap \<Rightarrow> addr \<Rightarrow> int \<Rightarrow> int \<Rightarrow> (heap \<times> addr) option" where
  "heap_slice h a start fin =
     (case deref h a of
        None \<Rightarrow> None
      | Some xs \<Rightarrow> Some (alloc h (Array_slice xs start fin)))"

definition heap_sort ::
    "engine \<Rightarrow> heap \<Rightarrow> addr \<Rightarrow> (blog \<Rightarrow> blog \<Rightarrow> int) \<Rightarrow> (heap \<times> addr) option" where
  "heap_sort eng h a cmp =
     (case deref h a of
        None \<Rightarrow> None
      | Some xs \<Rightarrow> Some (h[a := Array_sort eng cmp xs], a))"

text \<open>
  \<open>Home\<close> up to its \<open>return\<close>: the heap after the statement and the address of
  \<open>blogs\<close>, given the heap before and the address of \<open>allBlogs\<close>. The rendering
  that follows maps over \<open>blogs\<close> and writes to no array.
\<close>

definition Home :: "engine \<Rightarrow> heap \<Rightarrow> addr \<Rightarrow> (heap \<times> addr) option" where
  "Home eng h allBlogs =
     (case heap_slice h allBlogs 0 2 of
        None \<Rightarrow> None
      | Some (h1, sliced) \<Rightarrow> heap_sort eng h1 sliced comparefn)"

section \<open>Properties of the result\<close>

fun adjacent_desc :: "blog list \<Rightarrow> bool" where
  "adjacent_desc (x # y # rest) = (publishedAt x \<ge> publishedAt y \<and> adjacent_desc (y # rest))"
| "adjacent_desc _ = True"

section \<open>The content directory\<close>

text \<open>
  The two documents of \<open>src/content\<close>, from their front matter. The time values are
  those of 2024-04-28T00:00:00Z and 2024-04-30T00:00:00Z. The front matter has no slug;
  the slugs here are the names of the files without the extension, and no property of
  the list depends on them.
\<close>

definition format_nestjs_response :: blog where
  "format_nestjs_response =
     \<lparr>slug = ''format-nestjs-response'',
      title = ''Format Nest.js Response using Interceptors'',
      summary = ''Learn how to format and make the standardarized response in Nest.js using Interceptors.'',
      publishedAt = 1714262400000\<rparr>"

definition serialize_response_nestjs :: blog where
  "serialize_response_nestjs =
     \<lparr>slug = ''serialize-response-nestjs'',
      title = ''Serialize Nest.js API Response using class-transformer and class-validator'',
      summary = ''Learn how to serialize Nest.js API response using class-transformer and class-validator'',
      publishedAt = 1714435200000\<rparr>"

text \<open>A document with a slug and a date, for examples.\<close>

definition post :: "string \<Rightarrow> int \<Rightarrow> blog" where
  "post s t = \<lparr>slug = s, title = s, summary = [], publishedAt = t\<rparr>"

text \<open>Five documents in collection order, the oldest first and the most recent last.\<close>

definition five_posts :: "blog list" where
  "five_posts = [post ''p1'' 1, post ''p2'' 2, post ''p3'' 3, post ''p4'' 4, post ''p5'' 5]"

section \<open>From content files to documents\<close>

text \<open>
  A file of the content directory: its name and the fields of its front matter, the date
  as the time value of midnight UTC of that day. Documents are the files with the
  extension \<open>.mdx\<close>.
\<close>

record content_file =
  fileName :: string
  fm_title :: string
  fm_summary :: string
  fm_publishedAt :: int

definition has_mdx :: "string \<Rightarrow> bool" where
  "has_mdx name = (4 \<le> length name \<and> drop (length name - 4) name = ''.mdx'')"

text \<open>
  Modelled from the spec: the configuration of the content layer, which computes
  \<open>slug\<close>, is not among the sources. The spec says of a document: \<open>slug: string
  (unique, derived from filename)\<close>; the front matter of the content files has no slug.
  The model takes the slug to be the file name without its \<open>.mdx\<close> extension.
\<close>

definition slug_of_fileName :: "string \<Rightarrow> string" where
  "slug_of_fileName name = (if has_mdx name then take (length name - 4) name else name)"

text \<open>
  Modelled from the spec: the step of the content layer that builds \<open>allBlogs\<close> from
  the files is not among the sources. The spec says of the input: a directory of text
  documents with front-matter fields (title, summary, type, publishedAt), consumed as an
  already-parsed, ordered collection. A document takes its slug from the name of its
  file and its other fields from the front matter; the collection keeps the order of
  the files.
\<close>

definition load_blog :: "content_file \<Rightarrow> blog" where
  "load_blog f =
     \<lparr>slug = slug_of_fileName (fileName f), title = fm_title f,
      summary = fm_summary f, publishedAt = fm_publishedAt f\<rparr>"

definition load_allBlogs :: "content_file list \<Rightarrow> blog list" where
  "load_allBlogs files = map load_blog files"

text \<open>The two files of \<open>src/content\<close>.\<close>

definition content_dir :: "content_file list" where
  "content_dir =
     [\<lparr>fileName = ''format-nestjs-response.mdx'',
       fm_title = ''Format Nest.js Response using Interceptors'',
       fm_summary = ''Learn how to format and make the standardarized response in Nest.js using Interceptors.'',
       fm_publishedAt = 1714262400000\<rparr>,
      \<lparr>fileName = ''serialize-response-nestjs.mdx'',
       fm_title = ''Serialize Nest.js API Response using class-transformer and class-validator'',
       fm_summary = ''Learn how to serialize Nest.js API response using class-transformer and class-validator'',
       fm_publishedAt = 1714435200000\<rparr>]"

section \<open>Evaluating the slice and the sort\<close>

lemma Array_slice_0_2: "Array_slice xs 0 2 = take 2 xs"
  by (simp add: Array_slice_def Let_def min_def)

lemma take_2_Cons_Cons: "take 2 (x # y # rest) = [x, y]"
  by (simp add: numeral_2_eq_2)

lemma take_min_length: "take (min n (length xs)) xs = take n xs"
  by (simp add: min_def)

lemma Array_sort_Nil: "Array_sort eng cmp [] = []"
  by (simp add: Array_sort_def)

lemma Array_sort_single: "Array_sort eng cmp [x] = [x]"
  by (simp add: Array_sort_def)

lemma Array_sort_pair:
  "Array_sort eng cmp [x, y] = (if stays_behind eng cmp x y then [x, y] else [y, x])"
  by (simp add: Array_sort_def)

lemma mset_insert_item: "mset (insert_item eng cmp x ys) = add_mset x (mset ys)"
  by (induction ys) simp_all

lemma mset_Array_sort: "mset (Array_sort eng cmp xs) = mset xs"
proof -
  have "mset (foldl (\<lambda>acc x. insert_item eng cmp x acc) acc xs) = mset acc + mset xs" for acc
    by (induction xs arbitrary: acc) (simp_all add: mset_insert_item)
  then show ?thesis by (simp add: Array_sort_def)
qed

text \<open>What the comparator of \<open>Home\<close> answers to each engine's question.\<close>

lemma stays_behind_later:
  "stays_behind CompareLaterWithEarlier comparefn x y = (publishedAt y \<le> publishedAt x)"
  by (simp add: stays_behind_def comparefn_def)

lemma stays_behind_earlier:
  "stays_behind CompareEarlierWithLater comparefn x y = (publishedAt y < publishedAt x)"
  by (simp add: stays_behind_def comparefn_def)

lemma stays_behind_desc: "stays_behind eng comparefn x y \<Longrightarrow> publishedAt y \<le> publishedAt x"
  by (cases eng) (simp_all add: stays_behind_later stays_behind_earlier)

lemma not_stays_behind_desc: "\<not> stays_behind eng comparefn x y \<Longrightarrow> publishedAt x \<le> publishedAt y"
  by (cases eng) (simp_all add: stays_behind_later stays_behind_earlier)

text \<open>\<open>blogs\<close> on a collection of no, one, or at least two documents.\<close>

lemma blogs_Nil: "blogs eng [] = []"
  by (simp add: blogs_def Array_slice_0_2 Array_sort_Nil)

lemma blogs_single: "blogs eng [x] = [x]"
  by (simp add: blogs_def Array_slice_0_2 Array_sort_single)

lemma blogs_Cons_Cons:
  "blogs eng (x # y # rest) = (if stays_behind eng comparefn x y then [x, y] else [y, x])"
  by (simp add: blogs_def Array_slice_0_2 take_2_Cons_Cons Array_sort_pair)

lemma blogs_cases:
  obtains "allBlogs = []" | x where "allBlogs = [x]" | x y rest where "allBlogs = x # y # rest"
  by (cases allBlogs; cases "tl allBlogs") auto

lemma adjacent_desc_blogs: "adjacent_desc (blogs eng allBlogs)"
proof (cases allBlogs rule: blogs_cases)
  case 1
  then show ?thesis by (simp add: blogs_Nil)
next
  case (2 x)
  then show ?thesis by (simp add: blogs_single)
next
  case (3 x y rest)
  then show ?thesis
    by (simp add: blogs_Cons_Cons stays_behind_desc not_stays_behind_desc)
qed

lemma adjacent_desc_nth:
  "adjacent_desc xs \<Longrightarrow> Suc i < length xs \<Longrightarrow> publishedAt (xs ! Suc i) \<le> publishedAt (xs ! i)"
proof (induction xs arbitrary: i rule: adjacent_desc.induct)
  case (1 x y rest)
  then show ?case by (cases i) simp_all
qed simp_all

lemma mset_blogs: "mset (blogs eng allBlogs) = mset (take 2 allBlogs)"
  by (simp add: blogs_def Array_slice_0_2 mset_Array_sort)

lemma set_blogs: "set (blogs eng allBlogs) = set (take 2 allBlogs)"
  by (metis mset_blogs set_mset_mset)

lemma length_blogs: "length (blogs eng allBlogs) = min 2 (length allBlogs)"
proof -
  have "length (blogs eng allBlogs) = size (mset (blogs eng allBlogs))" by simp
  also have "\<dots> = length (take 2 allBlogs)" by (simp only: mset_blogs size_mset)
  finally show ?thesis by simp
qed

lemma blogs_five_posts: "blogs eng five_posts = [post ''p2'' 2, post ''p1'' 1]"
  by (cases eng)
    (simp_all add: five_posts_def blogs_Cons_Cons stays_behind_later stays_behind_earlier post_def)

lemma blogs_content:
  "blogs eng [format_nestjs_response, serialize_response_nestjs]
     = [serialize_response_nestjs, format_nestjs_response]"
  by (cases eng)
    (simp_all add: blogs_Cons_Cons stays_behind_later stays_behind_earlier
      format_nestjs_response_def serialize_response_nestjs_def)

lemma blogs_content_rev:
  "blogs eng [serialize_response_nestjs, format_nestjs_response]
     = [serialize_response_nestjs, format_nestjs_response]"
  by (cases eng)
    (simp_all add: blogs_Cons_Cons stays_behind_later stays_behind_earlier
      format_nestjs_response_def serialize_response_nestjs_def)

section \<open>Running \<open>Home\<close> on the heap\<close>

lemma deref_append_old: "a < length h \<Longrightarrow> deref (h @ [xs]) a = deref h a"
  by (simp add: deref_def nth_append)

lemma deref_append_new: "deref (h @ [xs]) (length h) = Some xs"
  by (simp add: deref_def)

lemma deref_SomeD: "deref h a = Some xs \<Longrightarrow> a < length h"
  by (simp add: deref_def split: if_splits)

text \<open>
  The slice is a new array at the end of the heap; the sort rewrites that array and no
  other. The elements of the result are \<open>blogs\<close> of the elements of \<open>allBlogs\<close>.
\<close>

lemma Home_run:
  assumes "deref h allBlogs = Some docs"
  shows "Home eng h allBlogs = Some (h @ [blogs eng docs], length h)"
  using assms
  by (simp add: Home_def heap_slice_def heap_sort_def alloc_def deref_def blogs_def split: if_splits)

text \<open>
  For contrast: \<open>sort\<close> called on an array itself rewrites it. Without the slice,
  \<open>Home\<close> would reorder \<open>allBlogs\<close>.
\<close>

lemma heap_sort_in_place:
  "heap_sort eng [ [format_nestjs_response, serialize_response_nestjs] ] 0 comparefn
     = Some ([ [serialize_response_nestjs, format_nestjs_response] ], 0)"
  by (cases eng)
    (simp_all add: heap_sort_def deref_def Array_sort_pair stays_behind_later stays_behind_earlier
      format_nestjs_response_def serialize_response_nestjs_def)

section \<open>The listing: how many documents, which, and in what order\<close>

text \<open>
  Claim C1, as the code has it. \<open>Home\<close> takes no count: the count is the constant 2 of
  \<open>slice(0, 2)\<close>. For every collection the list has at most 2 documents, all of them
  documents of the collection, ordered by \<open>publishedAt\<close> descending; a collection of at
  most 2 documents is listed whole, so its most recent document comes first.
\<close>

theorem blogs_at_most_two_descending:
  "length (blogs eng allBlogs) \<le> 2 \<and> adjacent_desc (blogs eng allBlogs)
   \<and> set (blogs eng allBlogs) \<subseteq> set allBlogs
   \<and> (length allBlogs \<le> 2 \<longrightarrow> mset (blogs eng allBlogs) = mset allBlogs)"
proof -
  have "length (blogs eng allBlogs) \<le> 2" by (simp add: length_blogs)
  moreover have "set (blogs eng allBlogs) \<subseteq> set allBlogs"
    using set_take_subset [of 2 allBlogs] by (simp only: set_blogs)
  moreover have "mset (blogs eng allBlogs) = mset allBlogs" if "length allBlogs \<le> 2"
    using that by (simp add: mset_blogs)
  ultimately show ?thesis using adjacent_desc_blogs by blast
qed

theorem blogs_at_most_two_descending_witness:
  "length [format_nestjs_response, serialize_response_nestjs] \<le> 2
   \<and> length (blogs CompareLaterWithEarlier [format_nestjs_response, serialize_response_nestjs]) \<le> 2
   \<and> adjacent_desc (blogs CompareLaterWithEarlier [format_nestjs_response, serialize_response_nestjs])
   \<and> mset (blogs CompareLaterWithEarlier [format_nestjs_response, serialize_response_nestjs])
       = mset [format_nestjs_response, serialize_response_nestjs]"
  using blogs_at_most_two_descending
    [of CompareLaterWithEarlier "[format_nestjs_response, serialize_response_nestjs]"]
  by simp

text \<open>
  Claim C1 as stated fails. With a count of 1 and the five documents of \<open>five_posts\<close>,
  the most recent being the last of the collection, the list would have to be that one
  document. On either engine the list has two documents, more than the count of 1, and
  the most recent document \<open>p5\<close> is not among them.
\<close>

theorem blogs_most_recent_counterexample:
  "\<not> length (blogs CompareLaterWithEarlier five_posts) \<le> 1
   \<and> post ''p5'' 5 \<notin> set (blogs CompareLaterWithEarlier five_posts)
   \<and> \<not> length (blogs CompareEarlierWithLater five_posts) \<le> 1
   \<and> post ''p5'' 5 \<notin> set (blogs CompareEarlierWithLater five_posts)"
  by (simp add: blogs_five_posts post_def)

text \<open>
  On an engine that asks \<open>comparefn(later, earlier) < 0\<close>, two documents of the same date
  keep the order of the collection: for every date, the documents of that date in the
  list are those of the slice, in the same order.
\<close>

lemma blogs_ties_kept:
  "filter (\<lambda>d. publishedAt d = t) (blogs CompareLaterWithEarlier allBlogs)
     = filter (\<lambda>d. publishedAt d = t) (take 2 allBlogs)"
proof (cases allBlogs rule: blogs_cases)
  case 1
  then show ?thesis by (simp add: blogs_Nil)
next
  case (2 x)
  then show ?thesis by (simp add: blogs_single)
next
  case (3 x y rest)
  then show ?thesis
    by (auto simp add: blogs_Cons_Cons take_2_Cons_Cons stays_behind_later)
qed

text \<open>
  Claim C2: two documents with the same \<open>publishedAt\<close> appear in the list in the order
  they have in the collection. The comparator answers 1 for two documents of the same
  date whichever is passed first, never 0, so the order of a tie is the engine's: on an
  engine that asks \<open>comparefn(earlier, later)\<close> the collection \<open>[a, b]\<close> of two
  different documents of the same date is listed as \<open>[b, a]\<close>.
\<close>

theorem blogs_tie_reversed:
  "publishedAt (post ''a'' 1714262400000) = publishedAt (post ''b'' 1714262400000)
   \<and> post ''a'' 1714262400000 \<noteq> post ''b'' 1714262400000
   \<and> blogs CompareEarlierWithLater [post ''a'' 1714262400000, post ''b'' 1714262400000]
       = [post ''b'' 1714262400000, post ''a'' 1714262400000]"
  by (simp add: blogs_Cons_Cons stays_behind_earlier post_def)

text \<open>
  Claim C3: the list is sorted by \<open>publishedAt\<close> descending. Of any two adjacent
  documents of the list, the earlier one has a date greater than or equal to that of
  the later one.
\<close>

theorem blogs_adjacent_descending:
  "Suc i < length (blogs eng allBlogs) \<Longrightarrow>
     publishedAt (blogs eng allBlogs ! i) \<ge> publishedAt (blogs eng allBlogs ! Suc i)"
  using adjacent_desc_blogs by (rule adjacent_desc_nth)

theorem blogs_adjacent_descending_witness:
  "Suc 0 < length (blogs CompareEarlierWithLater [format_nestjs_response, serialize_response_nestjs])
   \<and> publishedAt (blogs CompareEarlierWithLater [format_nestjs_response, serialize_response_nestjs] ! 0)
       \<ge> publishedAt (blogs CompareEarlierWithLater [format_nestjs_response, serialize_response_nestjs] ! Suc 0)"
proof -
  have len: "Suc 0 < length (blogs CompareEarlierWithLater [format_nestjs_response, serialize_response_nestjs])"
    by (simp add: blogs_content)
  from blogs_adjacent_descending [OF len] len show ?thesis by simp
qed

text \<open>
  Claim C4, as the code has it: the length of the list is the smaller of 2 and the number
  of documents in the collection. The count is the constant 2, not a parameter.
\<close>

theorem length_blogs_min_two: "length (blogs eng allBlogs) = min 2 (length allBlogs)"
  by (rule length_blogs)

text \<open>
  Claim C4 as stated, a length of \<open>min(N, |docs|)\<close> for every count \<open>N\<close>, fails at
  \<open>N = 1\<close> on five documents: the list has 2 documents, not 1.
\<close>

theorem length_blogs_counterexample:
  "length (blogs CompareLaterWithEarlier five_posts) \<noteq> min 1 (length five_posts)
   \<and> length (blogs CompareEarlierWithLater five_posts) \<noteq> min 1 (length five_posts)"
proof -
  have "length five_posts = 5" by (simp add: five_posts_def)
  then show ?thesis by (simp add: blogs_five_posts)
qed

text \<open>
  Claim C5: for the two documents of the content directory, dated 2024-04-28 and
  2024-04-30, the list is the document of 2024-04-30 first and the document of
  2024-04-28 second, in whichever order the collection holds them.
\<close>

theorem blogs_of_content_directory:
  "blogs eng [format_nestjs_response, serialize_response_nestjs]
     = [serialize_response_nestjs, format_nestjs_response]
   \<and> blogs eng [serialize_response_nestjs, format_nestjs_response]
     = [serialize_response_nestjs, format_nestjs_response]
   \<and> publishedAt serialize_response_nestjs > publishedAt format_nestjs_response"
  by (simp add: blogs_content blogs_content_rev)
     (simp add: format_nestjs_response_def serialize_response_nestjs_def)

text \<open>
  Claim C6: the list is a permutation of the first \<open>min(2, |allBlogs|)\<close> documents of the
  collection. It is the sort of the slice, so the cut to 2 comes before the ordering, and
  in a collection of distinct documents one at position 2 or later is never listed.
\<close>

theorem blogs_permutes_first_two:
  "mset (blogs eng allBlogs) = mset (take (min 2 (length allBlogs)) allBlogs)
   \<and> blogs eng allBlogs = Array_sort eng comparefn (take 2 allBlogs)
   \<and> (distinct allBlogs \<and> 2 \<le> i \<and> i < length allBlogs \<longrightarrow> allBlogs ! i \<notin> set (blogs eng allBlogs))"
proof -
  have beyond: "allBlogs ! i \<notin> set (blogs eng allBlogs)"
    if "distinct allBlogs" "2 \<le> i" "i < length allBlogs"
  proof
    assume "allBlogs ! i \<in> set (blogs eng allBlogs)"
    then have "allBlogs ! i \<in> set (take 2 allBlogs)" by (simp only: set_blogs)
    then obtain j where j: "j < length (take 2 allBlogs)" "take 2 allBlogs ! j = allBlogs ! i"
      by (auto simp: in_set_conv_nth)
    then have "j < 2" "j < length allBlogs" "allBlogs ! j = allBlogs ! i" by simp_all
    with that show False by (simp add: nth_eq_iff_index_eq)
  qed
  have sorted_slice: "blogs eng allBlogs = Array_sort eng comparefn (take 2 allBlogs)"
    by (simp add: blogs_def Array_slice_0_2)
  have perm: "mset (blogs eng allBlogs) = mset (take (min 2 (length allBlogs)) allBlogs)"
    by (simp add: mset_blogs take_min_length)
  from beyond sorted_slice perm show ?thesis by blast
qed

theorem blogs_permutes_first_two_witness:
  "distinct five_posts \<and> (2::nat) \<le> 4 \<and> 4 < length five_posts
   \<and> five_posts ! 4 \<notin> set (blogs CompareLaterWithEarlier five_posts)
   \<and> mset (blogs CompareLaterWithEarlier five_posts) = mset (take (min 2 (length five_posts)) five_posts)"
proof -
  have d: "distinct five_posts \<and> (2::nat) \<le> 4 \<and> 4 < length five_posts"
    by (simp add: five_posts_def post_def)
  with blogs_permutes_first_two [of CompareLaterWithEarlier five_posts 4] show ?thesis by blast
qed

section \<open>Errors, effects and repeated runs\<close>

text \<open>
  Claim C7: the listing has no error condition. Whatever the collection, \<open>Home\<close>
  returns a list, whose elements are \<open>blogs\<close> of the collection; and for the empty
  collection that list is empty.
\<close>

theorem Home_never_fails:
  assumes "deref h allBlogs = Some docs"
  shows "(\<exists>h' r. Home eng h allBlogs = Some (h', r) \<and> deref h' r = Some (blogs eng docs))
         \<and> blogs eng [] = []"
  using Home_run [OF assms, of eng] by (simp add: deref_append_new blogs_Nil)

theorem Home_never_fails_witness:
  "deref [Nil] 0 = Some []
   \<and> (\<exists>h' r. Home CompareLaterWithEarlier [Nil] 0 = Some (h', r) \<and> deref h' r = Some [])"
proof -
  have d: "deref [Nil] 0 = Some []" by (simp add: deref_def)
  from Home_never_fails [OF d, of CompareLaterWithEarlier] d show ?thesis
    by (simp add: blogs_Nil)
qed

text \<open>
  Claim C8: the listing has no side effect on its input. After \<open>Home\<close> has run,
  \<open>allBlogs\<close> holds the documents it held before, in the same order; the list is
  another array than \<open>allBlogs\<close>, and every array that existed before is unchanged.
\<close>

theorem Home_leaves_allBlogs:
  assumes "deref h allBlogs = Some docs" and "Home eng h allBlogs = Some (h', blogs_addr)"
  shows "deref h' allBlogs = Some docs \<and> blogs_addr \<noteq> allBlogs \<and> take (length h) h' = h"
proof -
  from assms(1) have a: "allBlogs < length h" by (rule deref_SomeD)
  from Home_run [OF assms(1), of eng] assms(2)
  have h': "h' = h @ [blogs eng docs]" and r: "blogs_addr = length h" by simp_all
  from a assms(1) show ?thesis by (simp add: h' r deref_append_old)
qed

theorem Home_leaves_allBlogs_witness:
  "deref [ [format_nestjs_response, serialize_response_nestjs] ] 0
     = Some [format_nestjs_response, serialize_response_nestjs]
   \<and> Home CompareLaterWithEarlier [ [format_nestjs_response, serialize_response_nestjs] ] 0
     = Some ([ [format_nestjs_response, serialize_response_nestjs],
              [serialize_response_nestjs, format_nestjs_response] ], 1)
   \<and> deref [ [format_nestjs_response, serialize_response_nestjs],
             [serialize_response_nestjs, format_nestjs_response] ] 0
     = Some [format_nestjs_response, serialize_response_nestjs]"
proof -
  let ?h = "[ [format_nestjs_response, serialize_response_nestjs] ]"
  have d: "deref ?h 0 = Some [format_nestjs_response, serialize_response_nestjs]"
    by (simp add: deref_def)
  have r: "Home CompareLaterWithEarlier ?h 0
     = Some ([ [format_nestjs_response, serialize_response_nestjs],
              [serialize_response_nestjs, format_nestjs_response] ], 1)"
    using Home_run [OF d, of CompareLaterWithEarlier] by (simp add: blogs_content)
  from Home_leaves_allBlogs [OF d r] d r show ?thesis by simp
qed

text \<open>
  Claim C9: running the listing twice on the same collection gives the same list both
  times. The second run starts from the heap the first run left; both runs return, the
  two lists have the same documents in the same order, and the first list is still what
  it was after the second run.
\<close>

theorem Home_twice_same_output:
  assumes "deref h allBlogs = Some docs"
  shows "\<exists>h1 r1 h2 r2. Home eng h allBlogs = Some (h1, r1) \<and> Home eng h1 allBlogs = Some (h2, r2)
           \<and> deref h1 r1 = Some (blogs eng docs) \<and> deref h2 r2 = deref h1 r1
           \<and> deref h2 r1 = deref h1 r1"
proof -
  let ?h1 = "h @ [blogs eng docs]"
  from assms have a: "allBlogs < length h" by (rule deref_SomeD)
  have first: "Home eng h allBlogs = Some (?h1, length h)"
    using assms by (rule Home_run)
  from a assms have "deref ?h1 allBlogs = Some docs" by (simp add: deref_append_old)
  then have second: "Home eng ?h1 allBlogs = Some (?h1 @ [blogs eng docs], length ?h1)"
    by (rule Home_run)
  have "deref ?h1 (length h) = Some (blogs eng docs)" by (rule deref_append_new)
  moreover have "deref (?h1 @ [blogs eng docs]) (length ?h1) = Some (blogs eng docs)"
    by (rule deref_append_new)
  moreover have "deref (?h1 @ [blogs eng docs]) (length h) = deref ?h1 (length h)"
    by (rule deref_append_old) simp
  ultimately show ?thesis using first second by simp
qed

theorem Home_twice_same_output_witness:
  "deref [ [format_nestjs_response, serialize_response_nestjs] ] 0
     = Some [format_nestjs_response, serialize_response_nestjs]
   \<and> (\<exists>h1 r1 h2 r2.
        Home CompareEarlierWithLater [ [format_nestjs_response, serialize_response_nestjs] ] 0 = Some (h1, r1)
        \<and> Home CompareEarlierWithLater h1 0 = Some (h2, r2)
        \<and> deref h1 r1 = Some [serialize_response_nestjs, format_nestjs_response]
        \<and> deref h2 r2 = deref h1 r1)"
proof -
  have d: "deref [ [format_nestjs_response, serialize_response_nestjs] ] 0
     = Some [format_nestjs_response, serialize_response_nestjs]"
    by (simp add: deref_def)
  from Home_twice_same_output [OF d, of CompareEarlierWithLater] d show ?thesis
    by (simp only: blogs_content) blast
qed

section \<open>Slugs\<close>

lemma slug_of_fileName_inj:
  assumes "has_mdx a" and "has_mdx b" and "slug_of_fileName a = slug_of_fileName b"
  shows "a = b"
proof -
  have "a = take (length a - 4) a @ ''.mdx''" "b = take (length b - 4) b @ ''.mdx''"
    using assms(1,2) by (metis append_take_drop_id has_mdx_def)+
  moreover have "take (length a - 4) a = take (length b - 4) b"
    using assms by (simp add: slug_of_fileName_def)
  ultimately show ?thesis by metis
qed

lemma slug_load_blog: "slug (load_blog f) = slug_of_fileName (fileName f)"
  by (simp add: load_blog_def)

lemma load_content_dir:
  "load_allBlogs content_dir = [format_nestjs_response, serialize_response_nestjs]"
  by (simp add: load_allBlogs_def content_dir_def load_blog_def slug_of_fileName_def has_mdx_def
      format_nestjs_response_def serialize_response_nestjs_def)

text \<open>
  Claim C10: slugs are unique across the documents. The files of the content directory
  have different names, each with the extension \<open>.mdx\<close>; the documents loaded from them
  then have pairwise different slugs.
\<close>

theorem slugs_unique:
  assumes "distinct (map fileName files)" and "list_all (\<lambda>f. has_mdx (fileName f)) files"
  shows "distinct (map slug (load_allBlogs files))"
proof -
  have "inj_on slug_of_fileName (set (map fileName files))"
    using assms(2) by (auto simp: inj_on_def list_all_iff intro: slug_of_fileName_inj)
  with assms(1) have "distinct (map slug_of_fileName (map fileName files))"
    using distinct_map [of slug_of_fileName "map fileName files"] by blast
  moreover have "map slug (load_allBlogs files) = map slug_of_fileName (map fileName files)"
    by (simp add: load_allBlogs_def slug_load_blog)
  ultimately show ?thesis by simp
qed

theorem slugs_unique_witness:
  "distinct (map fileName content_dir) \<and> list_all (\<lambda>f. has_mdx (fileName f)) content_dir
   \<and> load_allBlogs content_dir = [format_nestjs_response, serialize_response_nestjs]
   \<and> distinct (map slug (load_allBlogs content_dir))
   \<and> slug format_nestjs_response \<noteq> slug serialize_response_nestjs"
proof -
  have d: "distinct (map fileName content_dir)"
    by (simp add: content_dir_def)
  have m: "list_all (\<lambda>f. has_mdx (fileName f)) content_dir"
    by (simp add: content_dir_def has_mdx_def)
  from slugs_unique [OF d m] d m show ?thesis
    by (simp add: load_content_dir)
qed

end
